theory Spec2Isabelle
  imports Main "HOL-Library.Sublist"
begin

section \<open>Bytes, output stream and Go runtime failures\<close>

text \<open>
  The renderer of \<^verbatim>\<open>latex.go\<close> works on Go byte slices and Go strings. Both are
  sequences of bytes; an Isabelle \<^typ>\<open>char\<close> is exactly one byte, so both are modelled
  as \<^typ>\<open>string\<close>. The buffered writer \<^verbatim>\<open>w\<close> is the sequence of bytes written so
  far; every handler discards the writer's error results (\<^verbatim>\<open>_, _ = w.Write(..)\<close>),
  so a write is an append. A Go runtime panic is a value of type \<open>panic\<close>.
\<close>

datatype panic =
    IndexOutOfRange
  | SliceBoundsOutOfRange
  | NilPointerDereference
  | TypeAssertionFailed

definition backslash :: char where
  "backslash = CHR 0x5C"

definition tab :: char where
  "tab = CHR 0x09"

text \<open>Go's \<^verbatim>\<open>s[lo:hi]\<close> for indices that are in range.\<close>

definition subslice :: "string \<Rightarrow> nat \<Rightarrow> nat \<Rightarrow> string" where
  "subslice s lo hi = take (hi - lo) (drop lo s)"

section \<open>The escaping engine\<close>

text \<open>
  \<^verbatim>\<open>var escapeTable = [256][]byte{...}\<close>: ten entries are set, all others are nil.
\<close>

definition escapeTable :: "char \<Rightarrow> string option" where
  "escapeTable c =
     (if c = CHR 0x5C then Some (CHR 0x5C # ''textbackslash~'')
      else if c = CHR ''~'' then Some (CHR 0x5C # ''textasciitilde~'')
      else if c = CHR ''^'' then Some (CHR 0x5C # ''textasciicircum~'')
      else if c = CHR ''&'' then Some (CHR 0x5C # ''&'')
      else if c = CHR ''%'' then Some (CHR 0x5C # ''%'')
      else if c = CHR ''$'' then Some (CHR 0x5C # ''$'')
      else if c = CHR ''#'' then Some (CHR 0x5C # ''#'')
      else if c = CHR ''_'' then Some (CHR 0x5C # ''_'')
      else if c = CHR ''{'' then Some (CHR 0x5C # ''{'')
      else if c = CHR ''}'' then Some (CHR 0x5C # ''}'')
      else None)"

text \<open>
  The loop of \<^verbatim>\<open>escapeLaTeX\<close>, with its two cursors \<^verbatim>\<open>start\<close> and \<^verbatim>\<open>end\<close>:
  \<^verbatim>\<open>
  for end < len(s) {
      escSeq := escapeTable[s[end]]
      if escSeq != nil {
          w.Write(s[start:end]); w.Write(escSeq); start = end + 1
      }
      end++
  }
  \<close>
  It returns the cursors and the stream when the loop is left.
\<close>

function escapeLoop :: "string \<Rightarrow> nat \<Rightarrow> nat \<Rightarrow> string \<Rightarrow> nat \<times> nat \<times> string" where
  "escapeLoop s start end w =
     (if end < length s then
        (case escapeTable (s ! end) of
           Some escSeq \<Rightarrow> escapeLoop s (end + 1) (end + 1) (w @ subslice s start end @ escSeq)
         | None \<Rightarrow> escapeLoop s start (end + 1) w)
      else (start, end, w))"
  by pat_completeness auto
termination
  by (relation "measure (\<lambda>(s, start, end, w). length s - end)") auto

declare escapeLoop.simps [simp del]

text \<open>
  \<^verbatim>\<open>escapeLaTeX(w, s)\<close>: the loop from \<^verbatim>\<open>start = end = 0\<close>, then the final flush
  \<^verbatim>\<open>if start < len(s) && end <= len(s) { w.Write(s[start:end]) }\<close>.
\<close>

definition escapeLaTeX :: "string \<Rightarrow> string \<Rightarrow> string" where
  "escapeLaTeX w s =
     (case escapeLoop s 0 0 w of
        (start, end, w') \<Rightarrow>
          if start < length s \<and> end \<le> length s then w' @ subslice s start end else w')"

definition escLink :: "string \<Rightarrow> string \<Rightarrow> string" where
  "escLink w text = escapeLaTeX w text"

section \<open>Helpers from the Go standard library\<close>

text \<open>
  Go's \<^verbatim>\<open>int\<close> is modelled as \<^typ>\<open>int\<close>; the one place where the renderer does
  arithmetic on configured values wraps to 64 bits explicitly.
\<close>

definition wrap64 :: "int \<Rightarrow> int" where
  "wrap64 x = (x + 2 ^ 63) mod 2 ^ 64 - 2 ^ 63"

text \<open>\<^verbatim>\<open>func min(a, b int) int\<close>, \<^verbatim>\<open>func max(a, b int) int\<close>, \<^verbatim>\<open>func bool2int(b bool) int\<close>.\<close>

definition minInt :: "int \<Rightarrow> int \<Rightarrow> int" where
  "minInt a b = (if a < b then a else b)"

definition maxInt :: "int \<Rightarrow> int \<Rightarrow> int" where
  "maxInt a b = (if a > b then a else b)"

definition bool2int :: "bool \<Rightarrow> int" where
  "bool2int b = (if b then 1 else 0)"

text \<open>Indexing a Go array or slice: a runtime panic outside the range.\<close>

definition index :: "'a list \<Rightarrow> int \<Rightarrow> panic + 'a" where
  "index xs i = (if 0 \<le> i \<and> i < int (length xs) then Inr (xs ! nat i) else Inl IndexOutOfRange)"

text \<open>\<^verbatim>\<open>fmt.Sprintf\<close> with \<^verbatim>\<open>%d\<close> on an int and with \<^verbatim>\<open>%v\<close> on a byte slice.\<close>

fun showNat :: "nat \<Rightarrow> string" where
  "showNat n =
     (if n < 10 then [''0123456789'' ! n]
      else showNat (n div 10) @ [''0123456789'' ! (n mod 10)])"

declare showNat.simps [simp del]

definition showInt :: "int \<Rightarrow> string" where
  "showInt i = (if i < 0 then CHR ''-'' # showNat (nat (- i)) else showNat (nat i))"

fun joinSpace :: "string list \<Rightarrow> string" where
  "joinSpace [] = []"
| "joinSpace [x] = x"
| "joinSpace (x # y # ys) = x @ '' '' @ joinSpace (y # ys)"

definition showBytes :: "string \<Rightarrow> string" where
  "showBytes b = ''['' @ joinSpace (map (\<lambda>c. showNat (of_char c)) b) @ '']''"

text \<open>\<^verbatim>\<open>strconv.FormatUint(n, 16)\<close>: lower-case hexadecimal without padding.\<close>

fun FormatUintHex :: "nat \<Rightarrow> string" where
  "FormatUintHex n =
     (if n < 16 then [''0123456789abcdef'' ! n]
      else FormatUintHex (n div 16) @ [''0123456789abcdef'' ! (n mod 16)])"

declare FormatUintHex.simps [simp del]

text \<open>
  \<^verbatim>\<open>bytes.Contains(b, sub)\<close>, \<^verbatim>\<open>bytes.HasSuffix(s, suffix)\<close>, \<^verbatim>\<open>strings.Split(s, sep)\<close>
  for the one-byte separators the renderer passes (\<open>splitFrom\<close> scans the string and
  collects the current piece in \<open>cur\<close>), and \<^verbatim>\<open>strings.ReplaceAll(s, old, new)\<close> for a
  non-empty \<^verbatim>\<open>old\<close>.
\<close>

fun bytes_Contains :: "string \<Rightarrow> string \<Rightarrow> bool" where
  "bytes_Contains [] sub = (sub = [])"
| "bytes_Contains (c # cs) sub = (prefix sub (c # cs) \<or> bytes_Contains cs sub)"

definition bytes_HasSuffix :: "string \<Rightarrow> string \<Rightarrow> bool" where
  "bytes_HasSuffix s suf =
     (length suf \<le> length s \<and> drop (length s - length suf) s = suf)"

fun splitFrom :: "string \<Rightarrow> char \<Rightarrow> string \<Rightarrow> string list" where
  "splitFrom [] sep cur = [cur]"
| "splitFrom (c # cs) sep cur =
     (if c = sep then cur # splitFrom cs sep [] else splitFrom cs sep (cur @ [c]))"

definition strings_Split :: "string \<Rightarrow> char \<Rightarrow> string list" where
  "strings_Split s sep = splitFrom s sep []"

function strings_ReplaceAll :: "string \<Rightarrow> string \<Rightarrow> string \<Rightarrow> string" where
  "strings_ReplaceAll s old new =
     (if s = [] \<or> old = [] then s
      else if prefix old s then new @ strings_ReplaceAll (drop (length old) s) old new
      else hd s # strings_ReplaceAll (tl s) old new)"
  by pat_completeness auto
termination
  by (relation "measure (\<lambda>(s, old, new). length s)") (auto simp: neq_Nil_conv)

declare strings_ReplaceAll.simps [simp del]

text \<open>
  \<^verbatim>\<open>utf8.DecodeRune(p)\<close>: the first code point of \<^verbatim>\<open>p\<close> and the number of bytes of
  its encoding; \<^verbatim>\<open>(RuneError, 0)\<close> on empty input and \<^verbatim>\<open>(RuneError, 1)\<close> on an
  invalid or truncated encoding. The lead byte fixes the size and the range accepted
  for the second byte (Go's tables \<^verbatim>\<open>first\<close> and \<^verbatim>\<open>acceptRanges\<close>).
\<close>

definition RuneError :: nat where
  "RuneError = 0xFFFD"

fun DecodeRune :: "string \<Rightarrow> nat \<times> nat" where
  "DecodeRune [] = (RuneError, 0)"
| "DecodeRune (c0 # rest) =
     (let p0 = (of_char c0 :: nat) in
      if p0 < 0x80 then (p0, 1)
      else if p0 < 0xC2 \<or> 0xF4 < p0 then (RuneError, 1)
      else
        let sz = (if p0 < 0xE0 then 2 else if p0 < 0xF0 then 3 else (4::nat));
            lo = (if p0 = 0xE0 then 0xA0 else if p0 = 0xF0 then 0x90 else (0x80::nat));
            hi = (if p0 = 0xED then 0x9F else if p0 = 0xF4 then 0x8F else (0xBF::nat))
        in
        if length (c0 # rest) < sz then (RuneError, 1)
        else
          let b1 = (of_char (rest ! 0) :: nat) in
          if b1 < lo \<or> hi < b1 then (RuneError, 1)
          else if sz \<le> 2 then ((p0 mod 0x20) * 0x40 + b1 mod 0x40, 2)
          else
            let b2 = (of_char (rest ! 1) :: nat) in
            if b2 < 0x80 \<or> 0xBF < b2 then (RuneError, 1)
            else if sz \<le> 3 then
              ((p0 mod 0x10) * 0x1000 + (b1 mod 0x40) * 0x40 + b2 mod 0x40, 3)
            else
              let b3 = (of_char (rest ! 2) :: nat) in
              if b3 < 0x80 \<or> 0xBF < b3 then (RuneError, 1)
              else
                ((p0 mod 0x08) * 0x40000 + (b1 mod 0x40) * 0x1000
                   + (b2 mod 0x40) * 0x40 + b3 mod 0x40, 4))"

lemma DecodeRune_size_pos: "p \<noteq> [] \<Longrightarrow> 0 < snd (DecodeRune p)"
  by (cases p) (simp_all add: Let_def)

lemma DecodeRune_step:
  assumes "i < length source" and "(char, lchar) = DecodeRune (drop i source)"
  shows "length source - (i + lchar) < length source - i"
proof -
  have "drop i source \<noteq> []"
    using assms(1) by simp
  then have "0 < snd (DecodeRune (drop i source))"
    by (rule DecodeRune_size_pos)
  then have "0 < lchar"
    using assms(2) by (metis snd_conv)
  then show ?thesis
    using assms(1) by simp
qed

text \<open>
  \<^verbatim>\<open>unicode.ToLower(r)\<close>: written out for ASCII; above ASCII Go consults the Unicode
  case tables, which are a parameter \<open>caseTab\<close> here.
\<close>

definition ToLower :: "(nat \<Rightarrow> nat) \<Rightarrow> nat \<Rightarrow> nat" where
  "ToLower caseTab r =
     (if r \<le> 0x7F then (if 0x41 \<le> r \<and> r \<le> 0x5A then r + 0x20 else r)
      else caseTab r)"

section \<open>Configuration, document tree and walk results\<close>

text \<open>
  \<^verbatim>\<open>type Renderer struct\<close>. A nil \<^verbatim>\<open>Preamble\<close> and a nil \<^verbatim>\<open>DeclareUnicode\<close> are
  \<open>None\<close>.
\<close>

record Renderer =
  HeadingLevelOffset :: int
  NoHeadingNumbering :: bool
  Preamble :: "string option"
  Unsafe :: bool
  DeclareUnicode :: "(nat \<Rightarrow> string \<times> bool) option"
  makeTitle :: bool

text \<open>
  \<^verbatim>\<open>NewRenderer(options ...Option)\<close> starts from the zero value \<^verbatim>\<open>&Renderer{}\<close> and
  applies the options in order of appearance.
\<close>

type_synonym Option = "Renderer \<Rightarrow> Renderer"

definition NewRenderer :: "Option list \<Rightarrow> Renderer" where
  "NewRenderer options =
     fold (\<lambda>option r. option r) options
       \<lparr>HeadingLevelOffset = 0, NoHeadingNumbering = False, Preamble = None, Unsafe = False,
        DeclareUnicode = None, makeTitle = False\<rparr>"

definition WithMakeTitle :: "bool \<Rightarrow> Option" where
  "WithMakeTitle v = (\<lambda>r. r\<lparr>makeTitle := v\<rparr>)"

definition WithHeadingLevelOffset :: "int \<Rightarrow> Option" where
  "WithHeadingLevelOffset offset = (\<lambda>r. r\<lparr>HeadingLevelOffset := offset\<rparr>)"

definition WithNoHeadingNumbering :: "bool \<Rightarrow> Option" where
  "WithNoHeadingNumbering nonumbering = (\<lambda>r. r\<lparr>NoHeadingNumbering := nonumbering\<rparr>)"

definition WithPreamble :: "string option \<Rightarrow> Option" where
  "WithPreamble preamble = (\<lambda>r. r\<lparr>Preamble := preamble\<rparr>)"

definition WithRenderUnsafeElements :: "bool \<Rightarrow> Option" where
  "WithRenderUnsafeElements unsafe = (\<lambda>r. r\<lparr>Unsafe := unsafe\<rparr>)"

definition WithUnicodeCharactersMapping :: "(nat \<Rightarrow> string \<times> bool) option \<Rightarrow> Option" where
  "WithUnicodeCharactersMapping mapping = (\<lambda>r. r\<lparr>DeclareUnicode := mapping\<rparr>)"

text \<open>
  What the renderer takes from outside this file: the embedded file
  \<^verbatim>\<open>defaultPreamble.tex\<close>, goldmark's predicate \<^verbatim>\<open>html.IsDangerousURL\<close> and the
  Unicode case tables behind \<^verbatim>\<open>unicode.ToLower\<close>.
\<close>

record externals =
  defaultPreamble :: string
  IsDangerousURL :: "string \<Rightarrow> bool"
  caseTable :: "nat \<Rightarrow> nat"

text \<open>
  The tree of goldmark's package \<^verbatim>\<open>ast\<close>. A node carries the attributes the handlers
  read; where Go reads text through a segment of the source buffer
  (\<^verbatim>\<open>segment.Value(source)\<close>, \<^verbatim>\<open>n.URL(source)\<close>, \<^verbatim>\<open>n.Language(source)\<close>), the node
  carries that text.
\<close>

datatype NodeKind =
    KindDocument | KindHeading | KindBlockquote | KindCodeBlock | KindFencedCodeBlock
  | KindHTMLBlock | KindList | KindListItem | KindParagraph | KindTextBlock
  | KindThematicBreak | KindAutoLink | KindCodeSpan | KindEmphasis | KindImage
  | KindLink | KindRawHTML | KindText | KindString

datatype AutoLinkType = AutoLinkEmail | AutoLinkURL

datatype nodeData =
    Document
  | Heading (Level: int)
  | Blockquote
  | CodeBlock "string list"
  | FencedCodeBlock "string option" "string list"
  | HTMLBlock
  | ListNode (IsOrdered: bool)
  | ListItem
  | Paragraph
  | TextBlock
  | ThematicBreak
  | AutoLink AutoLinkType string string
  | CodeSpan
  | Emphasis int
  | Image string string
  | Link string
  | RawHTML
  | Text string bool bool bool
  | StringNode string bool bool

datatype node = Node (payload: nodeData) (children: "node list")

fun kindOf :: "nodeData \<Rightarrow> NodeKind" where
  "kindOf Document = KindDocument"
| "kindOf (Heading l) = KindHeading"
| "kindOf Blockquote = KindBlockquote"
| "kindOf (CodeBlock ls) = KindCodeBlock"
| "kindOf (FencedCodeBlock lang ls) = KindFencedCodeBlock"
| "kindOf HTMLBlock = KindHTMLBlock"
| "kindOf (ListNode ord) = KindList"
| "kindOf ListItem = KindListItem"
| "kindOf Paragraph = KindParagraph"
| "kindOf TextBlock = KindTextBlock"
| "kindOf ThematicBreak = KindThematicBreak"
| "kindOf (AutoLink t u l) = KindAutoLink"
| "kindOf CodeSpan = KindCodeSpan"
| "kindOf (Emphasis l) = KindEmphasis"
| "kindOf (Image d t) = KindImage"
| "kindOf (Link d) = KindLink"
| "kindOf RawHTML = KindRawHTML"
| "kindOf (Text v raw hard soft) = KindText"
| "kindOf (StringNode v code raw) = KindString"

definition Kind :: "node \<Rightarrow> NodeKind" where
  "Kind n = kindOf (payload n)"

text \<open>\<^verbatim>\<open>n.Lines()\<close>, each line already read from the source buffer.\<close>

definition Lines :: "node \<Rightarrow> string list" where
  "Lines n =
     (case payload n of
        CodeBlock ls \<Rightarrow> ls
      | FencedCodeBlock lang ls \<Rightarrow> ls
      | _ \<Rightarrow> [])"

text \<open>\<^verbatim>\<open>c.(*ast.Text).Segment.Value(source)\<close> of a text node.\<close>

definition segmentValue :: "node \<Rightarrow> string" where
  "segmentValue n = (case payload n of Text v raw hard soft \<Rightarrow> v | _ \<Rightarrow> [])"

text \<open>
  A handler returns \<^verbatim>\<open>(ast.WalkStatus, error)\<close> and has written to the stream, or
  it panics.
\<close>

datatype WalkStatus = WalkStop | WalkSkipChildren | WalkContinue

datatype goerror = GoError string

type_synonym result = "panic + (WalkStatus \<times> goerror option \<times> string)"

section \<open>Static tables\<close>

definition endCmdPrefix :: string where
  "endCmdPrefix = CHR 0x5C # ''end''"

definition mailToPrefix :: string where
  "mailToPrefix = '':mailto''"

definition hardBreak :: string where
  "hardBreak = [CHR 0x5C, CHR 0x5C] @ ''\<newline>\<newline>''"

definition codeSpanStart :: string where
  "codeSpanStart = CHR 0x5C # ''texttt{''"

definition blockQuoteStart :: string where
  "blockQuoteStart =
     ''\<newline>'' @ CHR 0x5C # ''begin{framed}\<newline>'' @ CHR 0x5C # ''begin{quote}\<newline>''"

definition blockQuoteEnd :: string where
  "blockQuoteEnd = CHR 0x5C # ''end{quote}\<newline>'' @ CHR 0x5C # ''end{framed}\<newline>''"

definition hruleCommand :: string where
  "hruleCommand = ''\<newline>'' @ CHR 0x5C # ''hrulefill\<newline>''"

definition itemCommand :: string where
  "itemCommand = CHR 0x5C # ''item~ ''"

definition headingTable :: "string list list" where
  "headingTable =
     [[CHR 0x5C # ''section{'', CHR 0x5C # ''section*{''],
      [CHR 0x5C # ''subsection{'', CHR 0x5C # ''subsection*{''],
      [CHR 0x5C # ''subsubsection{'', CHR 0x5C # ''subsubsection*{''],
      [CHR 0x5C # ''paragraph{'', CHR 0x5C # ''paragraph*{''],
      [CHR 0x5C # ''subparagraph{'', CHR 0x5C # ''subparagraph*{''],
      [CHR 0x5C # ''textbf{'', CHR 0x5C # ''textbf{'']]"

definition supportedLang :: "string list" where
  "supportedLang =
     [''abap'', ''acm'', ''acmscript'', ''acsl'', ''ada'', ''algol'', ''assembler'', ''awk'',
      ''basic'', ''clean'', ''idl'', ''c'', ''caml'', ''cil'', ''cobol'', ''comsol'', ''csh'',
      ''bash'', ''sh'', ''delphi'', ''eiffel'', ''elan'', ''erlang'', ''euphoria'',
      ''fortran'', ''gap'', ''go'', ''gcl'', ''gnuplot'', ''hansl'', ''haskell'', ''html'',
      ''inform'', ''java'', ''jvmis'', ''scala'', ''ksh'', ''lingo'', ''lisp'', ''elisp'',
      ''llvm'', ''logo'', ''lua'', ''make'', ''matlab'', ''mathematica'', ''mercury'',
      ''metapost'', ''miranda'', ''mizar'', ''ml'', ''mupad'', ''nastran'', ''ocl'',
      ''octave'', ''oz'', ''pascal'', ''perl'', ''php'', ''plasm'', ''postscript'', ''pov'',
      ''prolog'', ''promela'', ''pstricks'', ''python'', ''rexx'', ''oorexx'', ''reduce'',
      ''rsl'', ''ruby'', ''scilab'', ''shelxl'', ''simula'', ''sparql'', ''sql'', ''swift'',
      ''tcl'', ''s'', ''r'', ''sas'', ''tex'', ''vbscript'', ''verilog'', ''vhdl'', ''vrml'',
      ''xslt'', ''ant'', ''xml'']"

text \<open>
  \<^verbatim>\<open>comment(w, format, args...)\<close> writes one comment line; \<open>msg\<close> is the formatted
  message.
\<close>

definition comment :: "string \<Rightarrow> string \<Rightarrow> string" where
  "comment w msg = w @ ''% goldmark-latex: '' @ msg @ ''\<newline>''"

section \<open>The handlers\<close>

subsection \<open>Document envelope and unicode declarations\<close>

definition unicodeDecl :: string where
  "unicodeDecl = CHR 0x5C # ''DeclareUnicodeCharacter{''"

definition zeropad :: string where
  "zeropad = ''00''"

text \<open>
  The scan of \<^verbatim>\<open>renderDocument\<close> over the raw source, from byte offset \<open>i\<close>, with the
  set \<^verbatim>\<open>declared\<close> and the stream. The slice expression
  \<^verbatim>\<open>zeropad[:2-(len(num)-2)]\<close> panics when its bound is not within \<^verbatim>\<open>0..2\<close>.
\<close>

function declareLoop ::
  "(nat \<Rightarrow> string \<times> bool) \<Rightarrow> string \<Rightarrow> nat \<Rightarrow> nat set \<Rightarrow> string \<Rightarrow> panic + string" where
  "declareLoop f source i declared w =
     (if i < length source then
        (case DecodeRune (drop i source) of
           (char, lchar) \<Rightarrow>
             if lchar = 1 then declareLoop f source (i + lchar) declared w
             else if char \<in> declared then declareLoop f source (i + lchar) declared w
             else
               (case f char of
                  (replace, ok) \<Rightarrow>
                    if \<not> ok then declareLoop f source (i + lchar) (insert char declared) w
                    else
                      let num = FormatUintHex char;
                          k = 2 - (int (length num) - 2)
                      in
                      if 0 \<le> k \<and> k \<le> int (length zeropad) then
                        declareLoop f source (i + lchar) (insert char declared)
                          (w @ unicodeDecl @ take (nat k) zeropad @ num @ ''}{'' @ replace
                             @ ''}\<newline>'')
                      else Inl SliceBoundsOutOfRange))
      else Inr w)"
  by pat_completeness auto
termination
  by (relation "measure (\<lambda>(f, source, i, declared, w). length source - i)")
    (auto dest: DecodeRune_step)

declare declareLoop.simps [simp del]

text \<open>\<^verbatim>\<open>func (r *Renderer) renderDocument(w, source, node, entering)\<close>.\<close>

definition renderDocument :: "externals \<Rightarrow> Renderer \<Rightarrow> string \<Rightarrow> string \<Rightarrow> bool \<Rightarrow> result" where
  "renderDocument ext r w source entering =
     (if \<not> entering then
        Inr (WalkStop, None,
          comment w ''end of document'' @ ''\<newline>'' @ CHR 0x5C # ''end{document}\<newline>'')
      else
        let w1 = comment w ''start of document'';
            w2 = (case Preamble r of
                    None \<Rightarrow>
                      comment (comment w1 ''default preamble start'' @ defaultPreamble ext)
                        ''default preamble end''
                  | Some pre \<Rightarrow>
                      comment (comment w1 ''custom preamble start'' @ pre)
                        ''custom preamble end'')
        in
        (case (case DeclareUnicode r of
                 None \<Rightarrow> Inr w2
               | Some f \<Rightarrow> declareLoop f source 0 {} (w2 @ ''\<newline>'')) of
           Inl p \<Rightarrow> Inl p
         | Inr w3 \<Rightarrow>
             let w4 = w3 @ ''\<newline>'' @ CHR 0x5C # ''begin{document}\<newline>'' in
             Inr (WalkContinue, None,
               if makeTitle r then w4 @ CHR 0x5C # ''maketitle\<newline>'' else w4)))"

subsection \<open>Headings\<close>

text \<open>
  \<^verbatim>\<open>headingLevel := max(0, min(6, r.HeadingLevelOffset+n.Level-1))\<close>, the index into
  \<^verbatim>\<open>headingTable\<close>.
\<close>

definition headingLevel :: "Renderer \<Rightarrow> int \<Rightarrow> int" where
  "headingLevel r level = maxInt 0 (minInt 6 (wrap64 (wrap64 (HeadingLevelOffset r + level) - 1)))"

definition renderHeading :: "Renderer \<Rightarrow> string \<Rightarrow> node \<Rightarrow> bool \<Rightarrow> result" where
  "renderHeading r w n entering =
     (case payload n of
        Heading level \<Rightarrow>
          if entering then
            (case index headingTable (headingLevel r level) of
               Inl p \<Rightarrow> Inl p
             | Inr row \<Rightarrow>
                 (case index row (bool2int (NoHeadingNumbering r)) of
                    Inl p \<Rightarrow> Inl p
                  | Inr start \<Rightarrow>
                      let w1 = comment w
                            (''heading start - level '' @ showInt (headingLevel r level)
                               @ '', start: '' @ showBytes start);
                          w2 = w1 @ start
                      in
                      Inr (WalkContinue, None,
                        if headingLevel r level \<ge> 5 then w2 @ ''\<newline>'' else w2)))
          else Inr (WalkContinue, None, comment (w @ ''}\<newline>'') ''heading end'')
      | _ \<Rightarrow> Inl TypeAssertionFailed)"

subsection \<open>Block quotes, code blocks, HTML blocks\<close>

definition renderBlockquote :: "string \<Rightarrow> bool \<Rightarrow> result" where
  "renderBlockquote w entering =
     Inr (WalkContinue, None, if entering then w @ blockQuoteStart else w @ blockQuoteEnd)"

text \<open>
  The loop of \<^verbatim>\<open>writeRawLines\<close> from line index \<open>i\<close>:
  \<^verbatim>\<open>
  for i := 0; i < l; i++ {
      line := n.Lines().At(i)
      text := line.Value(source)
      if r.Unsafe || !bytes.Contains(text, endCmdPrefix) {
          w.Write(text)
      } else {
          w.WriteString("% goldmark-latex: Skipped following line due to possibly unsafe content:\n%")
          w.Write(text)
      }
  }
  \<close>
\<close>

definition skippedLine :: string where
  "skippedLine =
     ''% goldmark-latex: Skipped following line due to possibly unsafe content:\<newline>%''"

function writeRawLinesFrom :: "Renderer \<Rightarrow> string \<Rightarrow> string list \<Rightarrow> nat \<Rightarrow> string" where
  "writeRawLinesFrom r w ls i =
     (if i < length ls then
        (let text = ls ! i in
         if Unsafe r \<or> \<not> bytes_Contains text endCmdPrefix
         then writeRawLinesFrom r (w @ text) ls (i + 1)
         else writeRawLinesFrom r (w @ skippedLine @ text) ls (i + 1))
      else w)"
  by pat_completeness auto
termination
  by (relation "measure (\<lambda>(r, w, ls, i). length ls - i)") auto

declare writeRawLinesFrom.simps [simp del]

definition writeRawLines :: "Renderer \<Rightarrow> string \<Rightarrow> node \<Rightarrow> string" where
  "writeRawLines r w n = writeRawLinesFrom r w (Lines n) 0"

definition renderCodeBlock :: "Renderer \<Rightarrow> string \<Rightarrow> node \<Rightarrow> bool \<Rightarrow> result" where
  "renderCodeBlock r w n entering =
     (if entering then
        let w1 = comment w ''code block start'';
            w2 = w1 @ CHR 0x5C # ''begin{minted}{go}\<newline>'';
            w3 = w2 @ ''\<newline>''
        in Inr (WalkContinue, None, writeRawLines r w3 n)
      else
        Inr (WalkContinue, None,
          comment (w @ CHR 0x5C # ''end{minted}\<newline>'') ''code block end''))"

definition renderFencedCodeBlock :: "Renderer \<Rightarrow> string \<Rightarrow> node \<Rightarrow> bool \<Rightarrow> result" where
  "renderFencedCodeBlock r w n entering =
     (case payload n of
        FencedCodeBlock lang ls \<Rightarrow>
          if entering then
            let w1 = comment w ''code fenced block start'';
                w2 = w1 @ CHR 0x5C # ''begin{minted}'';
                language = map_option (\<lambda>l. take (nat (minInt 10 (int (length l)))) l) lang;
                w3 = (case language of
                        None \<Rightarrow> w2
                      | Some l \<Rightarrow>
                          if l \<in> set supportedLang then w2 @ ''{'' @ l @ ''}'' else w2);
                w4 = w3 @ ''\<newline>''
            in Inr (WalkContinue, None, writeRawLines r w4 n)
          else
            Inr (WalkContinue, None,
              comment (w @ CHR 0x5C # ''end{minted}\<newline>'') ''code fenced block end'')
      | _ \<Rightarrow> Inl TypeAssertionFailed)"

definition renderHTMLBlock :: "string \<Rightarrow> result" where
  "renderHTMLBlock w =
     Inr (WalkSkipChildren, None,
       w @ ''\<newline>% goldmark-latex: HTML block rendering unsupported, skipped\<newline>'')"

subsection \<open>Lists, paragraphs, text blocks, thematic breaks\<close>

definition renderList :: "string \<Rightarrow> node \<Rightarrow> bool \<Rightarrow> result" where
  "renderList w n entering =
     (case payload n of
        ListNode ordered \<Rightarrow>
          let tag = (if ordered then ''enumerate'' else ''itemize'') in
          if entering then
            Inr (WalkContinue, None,
              w @ ''\<newline>'' @ CHR 0x5C # ''begin{'' @ tag @ ''}\<newline>'')
          else Inr (WalkContinue, None, w @ CHR 0x5C # ''end{'' @ tag @ ''}\<newline>'')
      | _ \<Rightarrow> Inl TypeAssertionFailed)"

definition renderListItem :: "string \<Rightarrow> bool \<Rightarrow> result" where
  "renderListItem w entering =
     Inr (WalkContinue, None, if entering then w @ itemCommand else w @ ''\<newline>'')"

text \<open>
  \<^verbatim>\<open>renderParagraph\<close> reads \<^verbatim>\<open>n.Parent().Kind()\<close>; \<open>par\<close> is the parent, \<open>None\<close> for a
  nil parent.
\<close>

definition renderParagraph :: "string \<Rightarrow> node option \<Rightarrow> bool \<Rightarrow> result" where
  "renderParagraph w par entering =
     (if entering then
        let w1 = comment w ''paragraph start (type: *ast.Paragraph)'' in
        (case par of
           None \<Rightarrow> Inl NilPointerDereference
         | Some parent \<Rightarrow>
             let pkind = Kind parent in
             if pkind \<noteq> KindList \<and> pkind \<noteq> KindListItem
             then Inr (WalkContinue, None, w1 @ ''\<newline>'')
             else Inr (WalkContinue, None, w1))
      else Inr (WalkContinue, None, comment (w @ ''\<newline>'') ''paragraph end''))"

text \<open>\<open>nxt\<close> is \<^verbatim>\<open>n.NextSibling()\<close>.\<close>

definition renderTextBlock :: "string \<Rightarrow> node option \<Rightarrow> node \<Rightarrow> bool \<Rightarrow> result" where
  "renderTextBlock w nxt n entering =
     (if \<not> entering then
        (if nxt \<noteq> None \<and> children n \<noteq> []
         then Inr (WalkContinue, None, w @ ''\<newline>'')
         else Inr (WalkContinue, None, w))
      else Inr (WalkContinue, None, w))"

definition renderThematicBreak :: "string \<Rightarrow> bool \<Rightarrow> result" where
  "renderThematicBreak w entering =
     Inr (WalkContinue, None, if entering then w @ hruleCommand @ ''\<newline>'' else w)"

subsection \<open>Autolinks\<close>

text \<open>
  The handlers that compare case take the case table \<open>ct\<close> of \<open>ToLower\<close>.
  The loop of \<^verbatim>\<open>haslowerprefix(a, b)\<close> from byte offset \<open>i\<close>:
  \<^verbatim>\<open>
  n := min(len(a), len(b))
  for i < n {
      ra, la := utf8.DecodeRune(a[i:])
      rb, lb := utf8.DecodeRune(b[i:])
      if la != lb || unicode.ToLower(ra) != unicode.ToLower(rb) { return false }
      i += la
  }
  return true
  \<close>
\<close>

function haslowerprefixFrom :: "(nat \<Rightarrow> nat) \<Rightarrow> string \<Rightarrow> string \<Rightarrow> nat \<Rightarrow> bool" where
  "haslowerprefixFrom ct a b i =
     (if int i < minInt (int (length a)) (int (length b)) then
        (case DecodeRune (drop i a) of
           (ra, la) \<Rightarrow>
             (case DecodeRune (drop i b) of
                (rb, lb) \<Rightarrow>
                  if la \<noteq> lb \<or> ToLower ct ra \<noteq> ToLower ct rb then False
                  else haslowerprefixFrom ct a b (i + la)))
      else True)"
  by pat_completeness auto
termination
  by (relation "measure (\<lambda>(ct, a, b, i). length a - i)")
    (auto simp: minInt_def dest: DecodeRune_step split: if_splits)

declare haslowerprefixFrom.simps [simp del]

definition haslowerprefix :: "(nat \<Rightarrow> nat) \<Rightarrow> string \<Rightarrow> string \<Rightarrow> bool" where
  "haslowerprefix ct a b = haslowerprefixFrom ct a b 0"

definition renderAutoLink :: "(nat \<Rightarrow> nat) \<Rightarrow> string \<Rightarrow> node \<Rightarrow> bool \<Rightarrow> result" where
  "renderAutoLink ct w n entering =
     (case payload n of
        AutoLink linkType url label \<Rightarrow>
          if \<not> entering then Inr (WalkContinue, None, w)
          else
            let w1 = w @ CHR 0x5C # ''href{'';
                w2 = (if linkType = AutoLinkEmail \<and> haslowerprefix ct url mailToPrefix
                      then w1 @ ''mailto:'' else w1);
                w3 = escLink w2 url;
                w4 = w3 @ ''}{'';
                w5 = escapeLaTeX w4 label
            in Inr (WalkContinue, None, w5 @ ''}'')
      | _ \<Rightarrow> Inl TypeAssertionFailed)"

subsection \<open>Code spans, emphasis, links\<close>

text \<open>
  The loop of \<^verbatim>\<open>renderCodeSpan\<close> over the children, first child to last sibling; a
  child that is not a \<^verbatim>\<open>*ast.Text\<close> fails the type assertion.
\<close>

fun codeSpanChildren :: "string \<Rightarrow> node list \<Rightarrow> panic + string" where
  "codeSpanChildren w [] = Inr w"
| "codeSpanChildren w (c # cs) =
     (case payload c of
        Text value raw hard soft \<Rightarrow>
          if bytes_HasSuffix value ''\<newline>''
          then codeSpanChildren (escapeLaTeX w (subslice value 0 (length value - 1)) @ '' '') cs
          else codeSpanChildren (escapeLaTeX w value) cs
      | _ \<Rightarrow> Inl TypeAssertionFailed)"

definition renderCodeSpan :: "string \<Rightarrow> node \<Rightarrow> bool \<Rightarrow> result" where
  "renderCodeSpan w n entering =
     (if \<not> entering then Inr (WalkContinue, None, w @ ''}'')
      else
        (case codeSpanChildren (w @ codeSpanStart) (children n) of
           Inl p \<Rightarrow> Inl p
         | Inr w' \<Rightarrow> Inr (WalkSkipChildren, None, w')))"

definition renderEmphasis :: "string \<Rightarrow> node \<Rightarrow> bool \<Rightarrow> result" where
  "renderEmphasis w n entering =
     (if entering then
        (case payload n of
           Emphasis level \<Rightarrow>
             let tag = (if level = 2 then CHR 0x5C # ''textbf{''
                        else if level = 3 then CHR 0x5C # ''emph{''
                        else CHR 0x5C # ''textit{'')
             in Inr (WalkContinue, None, w @ tag)
         | _ \<Rightarrow> Inl TypeAssertionFailed)
      else Inr (WalkContinue, None, w @ ''}''))"

definition renderLink :: "externals \<Rightarrow> Renderer \<Rightarrow> string \<Rightarrow> node \<Rightarrow> bool \<Rightarrow> result" where
  "renderLink ext r w n entering =
     (case payload n of
        Link destination \<Rightarrow>
          if entering then
            let w1 = w @ CHR 0x5C # ''href{'';
                w2 = (if Unsafe r \<or> \<not> IsDangerousURL ext destination
                      then escapeLaTeX w1 destination else w1)
            in Inr (WalkContinue, None, w2 @ ''}{'')
          else Inr (WalkContinue, None, w @ ''}'')
      | _ \<Rightarrow> Inl TypeAssertionFailed)"

subsection \<open>Images\<close>

text \<open>
  The loop of \<^verbatim>\<open>renderImage\<close> over the tokens of the query string; its state is the map
  \<^verbatim>\<open>attributes\<close> and the stream.
\<close>

fun imageAttributes ::
  "string \<Rightarrow> string list \<Rightarrow> (string \<rightharpoonup> string) \<times> string \<Rightarrow> (string \<rightharpoonup> string) \<times> string" where
  "imageAttributes path [] (attributes, w) = (attributes, w)"
| "imageAttributes path (token # rest) (attributes, w) =
     (let t = strings_Split token (CHR ''='') in
      if length t \<noteq> 2 then
        imageAttributes path rest
          (attributes,
           w @ ''\<newline>% goldmark-latex: image '' @ path @ '' has invalid attribute '' @ token
             @ ''\<newline>'')
      else if t ! 0 = ''width'' \<or> t ! 0 = ''label'' then
        imageAttributes path rest (attributes(t ! 0 \<mapsto> t ! 1), w)
      else if t ! 0 = ''caption'' then
        imageAttributes path rest
          (attributes(''caption'' \<mapsto> strings_ReplaceAll (t ! 1) ''%20'' '' ''), w)
      else
        imageAttributes path rest
          (attributes,
           w @ ''\<newline>% goldmark-latex: image '' @ path @ '' has unsupported attribute '' @ t ! 0
             @ ''\<newline>''))"

text \<open>Reading a Go map of strings: the empty string for a missing key.\<close>

definition lookupAttr :: "(string \<rightharpoonup> string) \<Rightarrow> string \<Rightarrow> string" where
  "lookupAttr attributes k = (case attributes k of None \<Rightarrow> [] | Some v \<Rightarrow> v)"

definition figureBlock :: "string \<Rightarrow> string \<Rightarrow> string \<Rightarrow> string \<Rightarrow> string" where
  "figureBlock width path caption label =
     CHR 0x5C # ''begin{figure}[h]\<newline>''
     @ CHR 0x09 # CHR 0x5C # ''centering\<newline>''
     @ CHR 0x09 # CHR 0x5C # ''includegraphics[width='' @ width @ CHR 0x5C # ''textwidth]{''
     @ path @ ''}\<newline>''
     @ CHR 0x09 # CHR 0x5C # ''caption{'' @ caption @ ''}\<newline>''
     @ CHR 0x09 # CHR 0x5C # ''label {'' @ label @ ''}\<newline>''
     @ CHR 0x5C # ''end{figure}\<newline>''"

definition renderImage :: "string \<Rightarrow> node \<Rightarrow> bool \<Rightarrow> result" where
  "renderImage w n entering =
     (if \<not> entering then Inr (WalkContinue, None, w)
      else
        (case payload n of
           Image destination title \<Rightarrow>
             let w1 = w @ ''\<newline>% goldmark-latex: destination: '' @ destination @ '', title: ''
                        @ title @ '' \<newline>'';
                 tokens = strings_Split destination (CHR ''?'');
                 path = tokens ! 0;
                 (attributes, w2) =
                    (if length tokens > 1
                     then imageAttributes path (strings_Split (tokens ! 1) (CHR ''&''))
                            (Map.empty, w1)
                     else (Map.empty, w1))
             in
             Inr (WalkSkipChildren, None,
               w2 @ figureBlock (lookupAttr attributes ''width'') path
                      (lookupAttr attributes ''caption'') (lookupAttr attributes ''label''))
         | _ \<Rightarrow> Inl TypeAssertionFailed))"

subsection \<open>Raw HTML, text, strings\<close>

definition renderRawHTML :: "string \<Rightarrow> result" where
  "renderRawHTML w =
     Inr (WalkSkipChildren, None,
       w @ ''\<newline>% goldmark-latex: raw HTML rendering unsupported\<newline>'')"

definition renderText :: "string \<Rightarrow> node \<Rightarrow> bool \<Rightarrow> result" where
  "renderText w n entering =
     (if \<not> entering then Inr (WalkContinue, None, w)
      else
        (case payload n of
           Text segment raw hard soft \<Rightarrow>
             if raw then Inr (WalkContinue, None, w @ segment)
             else
               let w1 = escapeLaTeX w segment in
               if hard then Inr (WalkContinue, None, w1 @ hardBreak)
               else if soft then Inr (WalkContinue, None, w1 @ ''\<newline>'')
               else Inr (WalkContinue, None, w1)
         | _ \<Rightarrow> Inl TypeAssertionFailed))"

definition renderString :: "string \<Rightarrow> node \<Rightarrow> bool \<Rightarrow> result" where
  "renderString w n entering =
     (if \<not> entering then Inr (WalkContinue, None, w)
      else
        (case payload n of
           StringNode v code raw \<Rightarrow>
             if code \<or> raw then Inr (WalkContinue, None, w @ v)
             else Inr (WalkContinue, None, escapeLaTeX w v)
         | _ \<Rightarrow> Inl TypeAssertionFailed))"

subsection \<open>Dispatch\<close>

text \<open>
  \<^verbatim>\<open>RegisterFuncs\<close> registers one handler for each node kind; the walker calls the
  handler registered for the kind of the node. \<open>par\<close> and \<open>nxt\<close> are the node's parent
  and next sibling.
\<close>

definition RegisterFuncs ::
  "externals \<Rightarrow> Renderer \<Rightarrow> NodeKind
     \<Rightarrow> string \<Rightarrow> string \<Rightarrow> node option \<Rightarrow> node option \<Rightarrow> node \<Rightarrow> bool \<Rightarrow> result" where
  "RegisterFuncs ext r k w source par nxt n entering =
     (case k of
        KindDocument \<Rightarrow> renderDocument ext r w source entering
      | KindHeading \<Rightarrow> renderHeading r w n entering
      | KindBlockquote \<Rightarrow> renderBlockquote w entering
      | KindCodeBlock \<Rightarrow> renderCodeBlock r w n entering
      | KindFencedCodeBlock \<Rightarrow> renderFencedCodeBlock r w n entering
      | KindHTMLBlock \<Rightarrow> renderHTMLBlock w
      | KindList \<Rightarrow> renderList w n entering
      | KindListItem \<Rightarrow> renderListItem w entering
      | KindParagraph \<Rightarrow> renderParagraph w par entering
      | KindTextBlock \<Rightarrow> renderTextBlock w nxt n entering
      | KindThematicBreak \<Rightarrow> renderThematicBreak w entering
      | KindAutoLink \<Rightarrow> renderAutoLink (caseTable ext) w n entering
      | KindCodeSpan \<Rightarrow> renderCodeSpan w n entering
      | KindEmphasis \<Rightarrow> renderEmphasis w n entering
      | KindImage \<Rightarrow> renderImage w n entering
      | KindLink \<Rightarrow> renderLink ext r w n entering
      | KindRawHTML \<Rightarrow> renderRawHTML w
      | KindText \<Rightarrow> renderText w n entering
      | KindString \<Rightarrow> renderString w n entering)"

definition render ::
  "externals \<Rightarrow> Renderer \<Rightarrow> string \<Rightarrow> string \<Rightarrow> node option \<Rightarrow> node option \<Rightarrow> node \<Rightarrow> bool
     \<Rightarrow> result" where
  "render ext r w source par nxt n entering =
     RegisterFuncs ext r (Kind n) w source par nxt n entering"

section \<open>Reference descriptions\<close>

text \<open>
  These definitions are not translated from \<^verbatim>\<open>latex.go\<close>. They describe, token by
  token, what the image handler is stated to do with the tokens of the query string, and
  the loop of the source is compared with them: the diagnostic comment a token produces,
  the value a token gives to an attribute key, and the value of a key after all tokens
  (the last token that sets it wins, the empty string if none sets it).
\<close>

definition spec_attributeDiagnostic :: "string \<Rightarrow> string \<Rightarrow> string" where
  "spec_attributeDiagnostic path token =
     (let t = strings_Split token (CHR ''='') in
      if length t \<noteq> 2 then
        ''\<newline>% goldmark-latex: image '' @ path @ '' has invalid attribute '' @ token @ ''\<newline>''
      else if t ! 0 \<in> {''width'', ''label'', ''caption''} then []
      else
        ''\<newline>% goldmark-latex: image '' @ path @ '' has unsupported attribute '' @ t ! 0
          @ ''\<newline>'')"

definition spec_attributeValue :: "string \<Rightarrow> string \<Rightarrow> string option" where
  "spec_attributeValue key token =
     (let t = strings_Split token (CHR ''='') in
      if length t = 2 \<and> t ! 0 = key then
        Some (if key = ''caption'' then strings_ReplaceAll (t ! 1) ''%20'' '' '' else t ! 1)
      else None)"

definition spec_lastAttribute :: "string \<Rightarrow> string list \<Rightarrow> string" where
  "spec_lastAttribute key tokens =
     (case List.map_filter (spec_attributeValue key) tokens of [] \<Rightarrow> [] | v # vs \<Rightarrow> last (v # vs))"

text \<open>
  The upper-case form of an ASCII letter, to state that the mailto detection does not
  depend on the case of the target's letters.
\<close>

definition spec_asciiUpper :: "char \<Rightarrow> char" where
  "spec_asciiUpper c =
     (if 0x61 \<le> (of_char c :: nat) \<and> (of_char c :: nat) \<le> 0x7A
      then char_of ((of_char c :: nat) - 0x20) else c)"

section \<open>Properties of the escaping engine\<close>

lemma subslice_Suc:
  assumes "start \<le> end" and "end < length s"
  shows "subslice s start (Suc end) = subslice s start end @ [s ! end]"
proof -
  have len: "end - start < length (drop start s)"
    using assms by simp
  have "take (Suc (end - start)) (drop start s)
          = take (end - start) (drop start s) @ [drop start s ! (end - start)]"
    using len by (rule take_Suc_conv_app_nth)
  moreover have "drop start s ! (end - start) = s ! end"
    using assms by simp
  moreover have "Suc end - start = Suc (end - start)"
    using assms by simp
  ultimately show ?thesis
    by (simp add: subslice_def)
qed

lemma subslice_empty: "subslice s n n = []"
  by (simp add: subslice_def)

text \<open>
  The loop invariant: the cursors are ordered and in range, and no byte between them is
  reserved. Under it the loop followed by the final flush writes the pending run and
  then the translation of every remaining byte.
\<close>

lemma escapeLoop_flush:
  assumes "start \<le> end" and "end \<le> length s"
    and "\<And>i. start \<le> i \<Longrightarrow> i < end \<Longrightarrow> escapeTable (s ! i) = None"
  shows "(case escapeLoop s start end w of
            (start', end', w') \<Rightarrow>
              if start' < length s \<and> end' \<le> length s then w' @ subslice s start' end' else w')
         = w @ subslice s start end
             @ concat (map (\<lambda>c. case escapeTable c of Some e \<Rightarrow> e | None \<Rightarrow> [c]) (drop end s))"
  using assms
proof (induction s start "end" w rule: escapeLoop.induct)
  case (1 s start "end" w)
  show ?case
  proof (cases "end < length s")
    case False
    with "1.prems" have e: "end = length s" by simp
    show ?thesis
      using e "1.prems"(1)
      by (subst escapeLoop.simps) (auto simp: subslice_def)
  next
    case True
    then have dr: "drop end s = s ! end # drop (Suc end) s"
      by (simp add: Cons_nth_drop_Suc)
    show ?thesis
    proof (cases "escapeTable (s ! end)")
      case (Some e)
      have "(case escapeLoop s (end + 1) (end + 1) (w @ subslice s start end @ e) of
               (start', end', w') \<Rightarrow>
                 if start' < length s \<and> end' \<le> length s then w' @ subslice s start' end' else w')
            = (w @ subslice s start end @ e) @ subslice s (end + 1) (end + 1)
                @ concat (map (\<lambda>c. case escapeTable c of Some e \<Rightarrow> e | None \<Rightarrow> [c])
                    (drop (end + 1) s))"
        by (rule "1.IH"(2) [OF True Some]) (use True in auto)
      then show ?thesis
        using True Some dr
        by (subst escapeLoop.simps) (simp add: subslice_empty)
    next
      case None
      have inv: "\<And>i. start \<le> i \<Longrightarrow> i < end + 1 \<Longrightarrow> escapeTable (s ! i) = None"
        using None "1.prems"(3) by (metis Suc_eq_plus1 less_Suc_eq)
      have "(case escapeLoop s start (end + 1) w of
               (start', end', w') \<Rightarrow>
                 if start' < length s \<and> end' \<le> length s then w' @ subslice s start' end' else w')
            = w @ subslice s start (end + 1)
                @ concat (map (\<lambda>c. case escapeTable c of Some e \<Rightarrow> e | None \<Rightarrow> [c])
                    (drop (end + 1) s))"
        by (rule "1.IH"(1) [OF True None]) (use True "1.prems"(1) inv in auto)
      then show ?thesis
        using True None dr "1.prems"(1)
        by (subst escapeLoop.simps) (simp add: subslice_Suc)
    qed
  qed
qed

lemma escapeLaTeX_concat:
  "escapeLaTeX w s
     = w @ concat (map (\<lambda>c. case escapeTable c of Some e \<Rightarrow> e | None \<Rightarrow> [c]) s)"
  unfolding escapeLaTeX_def
  using escapeLoop_flush [of 0 0 s w] by (simp add: subslice_empty)

lemma escapeTable_Some_length: "escapeTable c = Some e \<Longrightarrow> 2 \<le> length e"
  by (auto simp: escapeTable_def split: if_splits)

lemma concat_escape_length:
  "length s \<le> length (concat (map (\<lambda>c. case escapeTable c of Some e \<Rightarrow> e | None \<Rightarrow> [c]) s))"
proof (induction s)
  case Nil
  show ?case by simp
next
  case (Cons c s)
  have "1 \<le> length (case escapeTable c of Some e \<Rightarrow> e | None \<Rightarrow> [c])"
    using escapeTable_Some_length [of c] by (cases "escapeTable c") auto
  with Cons show ?case by simp
qed

lemma concat_escape_plain:
  "(\<And>c. c \<in> set s \<Longrightarrow> escapeTable c = None)
     \<Longrightarrow> concat (map (\<lambda>c. case escapeTable c of Some e \<Rightarrow> e | None \<Rightarrow> [c]) s) = s"
  by (induction s) auto

lemma escapeLaTeX_append: "escapeLaTeX w s = w @ escapeLaTeX [] s"
  by (simp add: escapeLaTeX_concat)

text \<open>
  Claim C3. For every byte sequence \<open>s\<close> the escaping engine appends to the stream, in
  order, the substitution of the table for each reserved byte and the byte itself for
  every other byte. The reserved bytes are exactly backslash, tilde, caret, ampersand,
  percent, dollar, hash, underscore and the two braces, and each substitution has at
  least two bytes. Hence the output is at least as long as the input, escaping is the
  identity on an input with no reserved byte, and an input with exactly one reserved
  byte yields prefix, substitution, suffix with prefix and suffix unchanged.
\<close>

theorem escapeLaTeX_substitution:
  "escapeLaTeX w s
     = w @ concat (map (\<lambda>c. case escapeTable c of Some e \<Rightarrow> e | None \<Rightarrow> [c]) s)
   \<and> dom escapeTable
       = {CHR 0x5C, CHR ''~'', CHR ''^'', CHR ''&'', CHR ''%'', CHR ''$'', CHR ''#'',
          CHR ''_'', CHR ''{'', CHR ''}''}
   \<and> (escapeTable c = Some e \<longrightarrow> 2 \<le> length e)
   \<and> length w + length s \<le> length (escapeLaTeX w s)
   \<and> ((\<forall>x \<in> set s. escapeTable x = None) \<longrightarrow> escapeLaTeX w s = w @ s)
   \<and> (escapeTable c = Some e
          \<and> (\<forall>x \<in> set p. escapeTable x = None) \<and> (\<forall>x \<in> set q. escapeTable x = None)
        \<longrightarrow> escapeLaTeX w (p @ c # q) = w @ p @ e @ q)"
proof (intro conjI impI)
  show "escapeLaTeX w s
     = w @ concat (map (\<lambda>c. case escapeTable c of Some e \<Rightarrow> e | None \<Rightarrow> [c]) s)"
    by (rule escapeLaTeX_concat)
next
  show "dom escapeTable
       = {CHR 0x5C, CHR ''~'', CHR ''^'', CHR ''&'', CHR ''%'', CHR ''$'', CHR ''#'',
          CHR ''_'', CHR ''{'', CHR ''}''}"
    by (auto simp: dom_def escapeTable_def split: if_splits)
next
  assume "escapeTable c = Some e"
  then show "2 \<le> length e" by (rule escapeTable_Some_length)
next
  show "length w + length s \<le> length (escapeLaTeX w s)"
    using concat_escape_length [of s] by (simp add: escapeLaTeX_concat)
next
  assume "\<forall>x \<in> set s. escapeTable x = None"
  then show "escapeLaTeX w s = w @ s"
    by (simp add: escapeLaTeX_concat concat_escape_plain)
next
  assume a: "escapeTable c = Some e
          \<and> (\<forall>x \<in> set p. escapeTable x = None) \<and> (\<forall>x \<in> set q. escapeTable x = None)"
  then show "escapeLaTeX w (p @ c # q) = w @ p @ e @ q"
    by (simp add: escapeLaTeX_concat concat_escape_plain)
qed

theorem escapeLaTeX_substitution_witness:
  "escapeTable (CHR ''_'') = Some (CHR 0x5C # ''_'')
   \<and> list_all (\<lambda>x. escapeTable x = None) ''snake''
   \<and> list_all (\<lambda>x. escapeTable x = None) ''case''
   \<and> list_all (\<lambda>x. escapeTable x = None) ''plain text''
   \<and> escapeLaTeX [] ''plain text'' = ''plain text''
   \<and> escapeLaTeX [] (''snake'' @ CHR ''_'' # ''case'') = ''snake'' @ (CHR 0x5C # ''_'') @ ''case''
   \<and> 2 \<le> length (CHR 0x5C # ''_'')"
proof -
  have us: "escapeTable (CHR ''_'') = Some (CHR 0x5C # ''_'')"
    by (simp add: escapeTable_def)
  have p: "\<forall>x \<in> set ''snake''. escapeTable x = None"
    by (simp add: escapeTable_def)
  have q: "\<forall>x \<in> set ''case''. escapeTable x = None"
    by (simp add: escapeTable_def)
  have plain: "\<forall>x \<in> set ''plain text''. escapeTable x = None"
    by (simp add: escapeTable_def)
  note inst = escapeLaTeX_substitution
    [where w = "[]" and s = "''plain text''" and c = "CHR ''_''" and e = "CHR 0x5C # ''_''"
       and p = "''snake''" and q = "''case''"]
  have one: "escapeLaTeX [] ''plain text'' = [] @ ''plain text''"
    using inst plain by blast
  have two: "escapeLaTeX [] (''snake'' @ CHR ''_'' # ''case'')
               = [] @ ''snake'' @ (CHR 0x5C # ''_'') @ ''case''"
    using inst us p q by blast
  have three: "2 \<le> length (CHR 0x5C # ''_'')"
    using inst us by blast
  show ?thesis
    using us p q plain one two three by (simp add: list_all_iff)
qed

section \<open>Properties of the heading leveler\<close>

lemma headingLevel_range: "0 \<le> headingLevel r level \<and> headingLevel r level \<le> 6"
  by (simp add: headingLevel_def minInt_def maxInt_def)

lemma headingLevel_clamp:
  assumes "- (2 ^ 63) \<le> HeadingLevelOffset r + level" and "HeadingLevelOffset r + level < 2 ^ 63"
    and "- (2 ^ 63) < HeadingLevelOffset r + level"
  shows "headingLevel r level = max 0 (min 6 (level - 1 + HeadingLevelOffset r))"
proof -
  have a: "wrap64 (HeadingLevelOffset r + level) = HeadingLevelOffset r + level"
    using assms(1,2) by (simp add: wrap64_def)
  have b: "wrap64 (HeadingLevelOffset r + level - 1) = HeadingLevelOffset r + level - 1"
    using assms(2,3) by (simp add: wrap64_def)
  show ?thesis
    by (simp add: headingLevel_def a b minInt_def maxInt_def)
qed

lemma headingTable_length: "length headingTable = 6"
  by (simp add: headingTable_def)

lemma headingTable_rows: "row \<in> set headingTable \<Longrightarrow> length row = 2"
  by (auto simp: headingTable_def)

text \<open>
  The heading handler returns exactly when the computed index is at most 5; the index 6,
  which the clamp lets through, is outside the table.
\<close>

lemma renderHeading_returns_iff:
  "(\<exists>res. renderHeading r w (Node (Heading level) cs) True = Inr res)
     \<longleftrightarrow> headingLevel r level \<le> 5"
proof (cases "headingLevel r level \<le> 5")
  case True
  then have i: "nat (headingLevel r level) < length headingTable"
    by (simp add: headingTable_length)
  then have "length (headingTable ! nat (headingLevel r level)) = 2"
    by (intro headingTable_rows nth_mem)
  then show ?thesis
    using True i headingLevel_range [of r level]
    by (simp add: renderHeading_def index_def bool2int_def Let_def headingTable_length)
next
  case False
  then show ?thesis
    by (simp add: renderHeading_def index_def headingTable_length)
qed

text \<open>
  Claim C1 says that the heading handler selects its command at the index
  \<open>clamp(L - 1 + offset, 0, 5)\<close>, so that level 7 with offset 0 yields index 5 and no
  result is ever outside the six-entry command table. The code clamps to \<open>[0, 6]\<close>: a
  level-6 heading with offset 1, and the claim's own level 7 with offset 0, compute the
  index 6 and the lookup in the six-entry table panics.
\<close>

theorem renderHeading_index_out_of_range:
  "headingLevel (NewRenderer [WithHeadingLevelOffset 1]) 6 = 6
   \<and> headingLevel (NewRenderer []) 7 = 6
   \<and> length headingTable = 6
   \<and> renderHeading (NewRenderer [WithHeadingLevelOffset 1]) w (Node (Heading 6) cs) True
       = Inl IndexOutOfRange
   \<and> renderHeading (NewRenderer []) w (Node (Heading 7) cs) True = Inl IndexOutOfRange"
  by (simp add: renderHeading_def NewRenderer_def WithHeadingLevelOffset_def headingLevel_def
      wrap64_def minInt_def maxInt_def index_def headingTable_def)

section \<open>Properties of the unicode declarations\<close>

text \<open>
  Claim C7 says that for every non-ASCII code point marked as replaced, also above
  U+FFFF, the declaration is emitted and the zero-padding stays within the padding
  string. For U+1F600 (UTF-8 \<open>F0 9F 98 80\<close>) the hexadecimal text has five digits, the
  slice bound \<open>2 - (5 - 2)\<close> is negative and the handler panics.
\<close>

theorem renderDocument_supplementary_plane_panics:
  "renderDocument ext (NewRenderer [WithUnicodeCharactersMapping (Some (\<lambda>c. (rep, True)))]) w
     [CHR 0xF0, CHR 0x9F, CHR 0x98, CHR 0x80] True
   = Inl SliceBoundsOutOfRange
   \<and> DecodeRune [CHR 0xF0, CHR 0x9F, CHR 0x98, CHR 0x80] = (0x1F600, 4)
   \<and> FormatUintHex 0x1F600 = ''1f600''"
  by (simp add: renderDocument_def NewRenderer_def WithUnicodeCharactersMapping_def
      declareLoop.simps FormatUintHex.simps zeropad_def Let_def)

text \<open>
  Claim C6 says that a source containing the same non-ASCII code point twice emits
  exactly one declaration for it. For a source that holds U+1F600 twice and a mapping
  that replaces it, the handler panics at the first occurrence and no declaration is
  completed.
\<close>

theorem renderDocument_duplicate_supplementary_panics:
  "renderDocument ext (NewRenderer [WithUnicodeCharactersMapping (Some (\<lambda>c. (rep, True)))]) w
     [CHR 0xF0, CHR 0x9F, CHR 0x98, CHR 0x80, CHR 0xF0, CHR 0x9F, CHR 0x98, CHR 0x80] True
   = Inl SliceBoundsOutOfRange"
  by (simp add: renderDocument_def NewRenderer_def WithUnicodeCharactersMapping_def
      declareLoop.simps FormatUintHex.simps zeropad_def Let_def)

section \<open>Properties of the dispatch\<close>

text \<open>
  Claim C2 says that for every valid tree and every configuration every handler
  invocation returns a nil error and rendering runs to completion. Entering a level-6
  heading under offset 1, and entering the document when a replaced code point above
  U+FFFF occurs in the source, the registered handler panics instead of returning.
\<close>

theorem render_panics_on_valid_input:
  "render ext (NewRenderer [WithHeadingLevelOffset 1]) w source (Some (Node Document [])) None
     (Node (Heading 6) [Node (Text ''title'' False False False) []]) True
   = Inl IndexOutOfRange
   \<and> render ext (NewRenderer [WithUnicodeCharactersMapping (Some (\<lambda>c. (rep, True)))]) w
       [CHR 0xF0, CHR 0x9F, CHR 0x98, CHR 0x80] None None
       (Node Document
          [Node Paragraph
             [Node (Text [CHR 0xF0, CHR 0x9F, CHR 0x98, CHR 0x80] False False False) []]])
       True
   = Inl SliceBoundsOutOfRange"
  by (simp add: render_def RegisterFuncs_def Kind_def renderHeading_def NewRenderer_def
      WithHeadingLevelOffset_def headingLevel_def wrap64_def minInt_def maxInt_def index_def
      headingTable_def renderDocument_def WithUnicodeCharactersMapping_def
      declareLoop.simps FormatUintHex.simps zeropad_def Let_def)

section \<open>Properties of the code block lines\<close>

lemma writeRawLinesFrom_concat:
  "writeRawLinesFrom r w ls i
     = w @ concat (map (\<lambda>text. if Unsafe r \<or> \<not> bytes_Contains text endCmdPrefix
                                 then text else skippedLine @ text) (drop i ls))"
proof (induction r w ls i rule: writeRawLinesFrom.induct)
  case (1 r w ls i)
  show ?case
  proof (cases "i < length ls")
    case False
    then show ?thesis
      by (subst writeRawLinesFrom.simps) simp
  next
    case True
    then have dr: "drop i ls = ls ! i # drop (i + 1) ls"
      by (simp add: Cons_nth_drop_Suc)
    show ?thesis
      using True "1.IH" dr
      by (subst writeRawLinesFrom.simps) (simp add: Let_def)
  qed
qed

lemma bytes_Contains_sublist: "bytes_Contains b sub \<longleftrightarrow> sublist sub b"
  by (induction b) (auto simp: sublist_Cons_right)

text \<open>
  Claim C4. Every line of a code block or fenced code block is written as it is when
  unsafe mode is on, or when unsafe mode is off and the line does not contain the bytes
  \<^verbatim>\<open>\end\<close> anywhere; otherwise the fixed comment is written and the line follows the
  comment's final \<^verbatim>\<open>%\<close>. The test is containment of the byte sequence, and the line
  never passes through \<open>escapeLaTeX\<close>.
\<close>

theorem writeRawLines_filter:
  "writeRawLines r w n
     = w @ concat (map (\<lambda>text. if Unsafe r \<or> \<not> sublist endCmdPrefix text
                                 then text else skippedLine @ text) (Lines n))
   \<and> endCmdPrefix = CHR 0x5C # ''end''
   \<and> skippedLine
       = ''% goldmark-latex: Skipped following line due to possibly unsafe content:\<newline>%''
   \<and> sublist endCmdPrefix text = (\<exists>before after. text = before @ endCmdPrefix @ after)"
  by (simp add: writeRawLines_def writeRawLinesFrom_concat bytes_Contains_sublist
      endCmdPrefix_def skippedLine_def sublist_def)

theorem writeRawLines_filter_witness:
  "writeRawLines (NewRenderer []) []
     (Node (CodeBlock [''x = 1\<newline>'', CHR 0x5C # ''end{minted}\<newline>'']) [])
   = ''x = 1\<newline>'' @ skippedLine @ CHR 0x5C # ''end{minted}\<newline>''
   \<and> writeRawLines (NewRenderer [WithRenderUnsafeElements True]) []
       (Node (CodeBlock [''x = 1\<newline>'', CHR 0x5C # ''end{minted}\<newline>'']) [])
     = ''x = 1\<newline>'' @ CHR 0x5C # ''end{minted}\<newline>''"
proof -
  have s1: "sublist endCmdPrefix (CHR 0x5C # ''end{minted}\<newline>'')"
    by (simp add: bytes_Contains_sublist [symmetric] endCmdPrefix_def)
  have s2: "\<not> sublist endCmdPrefix ''x = 1\<newline>''"
    by (simp add: bytes_Contains_sublist [symmetric] endCmdPrefix_def)
  have safe: "writeRawLines (NewRenderer []) []
       (Node (CodeBlock [''x = 1\<newline>'', CHR 0x5C # ''end{minted}\<newline>'']) [])
     = ''x = 1\<newline>'' @ skippedLine @ CHR 0x5C # ''end{minted}\<newline>''"
    using writeRawLines_filter
      [of "NewRenderer []" "[]"
        "Node (CodeBlock [''x = 1\<newline>'', CHR 0x5C # ''end{minted}\<newline>'']) []"]
      s1 s2
    by (simp add: Lines_def NewRenderer_def)
  have unsafe: "writeRawLines (NewRenderer [WithRenderUnsafeElements True]) []
       (Node (CodeBlock [''x = 1\<newline>'', CHR 0x5C # ''end{minted}\<newline>'']) [])
     = ''x = 1\<newline>'' @ CHR 0x5C # ''end{minted}\<newline>''"
    using writeRawLines_filter
      [of "NewRenderer [WithRenderUnsafeElements True]" "[]"
        "Node (CodeBlock [''x = 1\<newline>'', CHR 0x5C # ''end{minted}\<newline>'']) []"]
    by (simp add: Lines_def NewRenderer_def WithRenderUnsafeElements_def)
  show ?thesis
    using safe unsafe by simp
qed

section \<open>Properties of the code block openers\<close>

text \<open>
  Claim C10. Entering an indented code block writes, whatever its lines and the
  configuration, the start comment, the fixed opener \<^verbatim>\<open>\begin{minted}{go}\<close> with its
  newline and one more newline, and then the lines. Entering a fenced code block writes
  \<^verbatim>\<open>\begin{minted}\<close> followed by the declared language in braces when the language,
  cut to ten bytes, is in the table of supported languages, and by nothing otherwise.
\<close>

theorem renderCodeBlock_opener:
  "renderCodeBlock r w n True
     = Inr (WalkContinue, None,
         writeRawLines r
           (w @ ''% goldmark-latex: code block start\<newline>''
              @ CHR 0x5C # ''begin{minted}{go}\<newline>'' @ ''\<newline>'') n)
   \<and> renderFencedCodeBlock r w (Node (FencedCodeBlock lang ls) cs) True
     = Inr (WalkContinue, None,
         writeRawLines r
           (w @ ''% goldmark-latex: code fenced block start\<newline>''
              @ CHR 0x5C # ''begin{minted}''
              @ (case lang of
                   None \<Rightarrow> []
                 | Some l \<Rightarrow> if take 10 l \<in> set supportedLang then ''{'' @ take 10 l @ ''}'' else [])
              @ ''\<newline>'')
           (Node (FencedCodeBlock lang ls) cs))"
  by (simp add: renderCodeBlock_def renderFencedCodeBlock_def comment_def Let_def minInt_def
      split: option.splits)

section \<open>Properties of code spans\<close>

lemma bytes_HasSuffix_newline:
  "bytes_HasSuffix v ''\<newline>'' \<longleftrightarrow> v \<noteq> [] \<and> last v = CHR 0x0A"
proof (cases v rule: rev_cases)
  case Nil
  then show ?thesis by (simp add: bytes_HasSuffix_def)
next
  case (snoc ys y)
  then show ?thesis by (auto simp: bytes_HasSuffix_def)
qed

lemma subslice_butlast: "subslice v 0 (length v - Suc 0) = butlast v"
  by (simp add: subslice_def butlast_conv_take)

lemma codeSpanChildren_concat:
  "list_all (\<lambda>c. Kind c = KindText) cs \<Longrightarrow>
   codeSpanChildren w cs
     = Inr (w @ concat (map (\<lambda>c. if segmentValue c \<noteq> [] \<and> last (segmentValue c) = CHR 0x0A
                                   then escapeLaTeX [] (butlast (segmentValue c)) @ '' ''
                                   else escapeLaTeX [] (segmentValue c)) cs))"
proof (induction cs arbitrary: w)
  case Nil
  show ?case by simp
next
  case (Cons c cs)
  from Cons.prems obtain v raw hard soft where p: "payload c = Text v raw hard soft"
    by (cases "payload c") (auto simp: Kind_def)
  have rest: "list_all (\<lambda>c. Kind c = KindText) cs"
    using Cons.prems by simp
  show ?case
    using p Cons.IH [OF rest]
    by (simp add: segmentValue_def bytes_HasSuffix_newline subslice_butlast
        escapeLaTeX_append [of "w @ _"] escapeLaTeX_append [of w])
qed

text \<open>
  Claim C5 says that the text of a code span is written without passing through the
  escaping engine. The code span \<^verbatim>\<open>a_b\<close> is written as \<^verbatim>\<open>\texttt{a\_b\<close>: the
  underscore has been escaped.
\<close>

theorem renderCodeSpan_verbatim_counterexample:
  "renderCodeSpan [] (Node CodeSpan [Node (Text ''a_b'' False False False) []]) True
     = Inr (WalkSkipChildren, None, codeSpanStart @ ''a'' @ CHR 0x5C # ''_b'')
   \<and> renderCodeSpan [] (Node CodeSpan [Node (Text ''a_b'' False False False) []]) True
     \<noteq> Inr (WalkSkipChildren, None, codeSpanStart @ ''a_b'')"
  by (simp add: renderCodeSpan_def bytes_HasSuffix_def escapeLaTeX_concat escapeTable_def
      codeSpanStart_def)

text \<open>
  Claim C5 as amended. Entering a code span whose children are all text nodes writes
  \<^verbatim>\<open>\texttt{\<close> and then, for each child in order, the child's text passed through the
  escaping engine; where a child's text ends in a newline, in the last child as in any
  other, that newline is dropped before escaping and one space is written after the
  escaped text. The handler returns SkipChildren. Leaving the code span writes the
  closing brace.
\<close>

theorem renderCodeSpan_escaped:
  "list_all (\<lambda>c. Kind c = KindText) cs \<Longrightarrow>
   renderCodeSpan w (Node CodeSpan cs) True
     = Inr (WalkSkipChildren, None,
         w @ codeSpanStart
           @ concat (map (\<lambda>c. if segmentValue c \<noteq> [] \<and> last (segmentValue c) = CHR 0x0A
                               then escapeLaTeX [] (butlast (segmentValue c)) @ '' ''
                               else escapeLaTeX [] (segmentValue c)) cs))
   \<and> renderCodeSpan w (Node CodeSpan cs) False = Inr (WalkContinue, None, w @ ''}'')
   \<and> codeSpanStart = CHR 0x5C # ''texttt{''"
  by (simp add: renderCodeSpan_def codeSpanChildren_concat codeSpanStart_def)

theorem renderCodeSpan_escaped_witness:
  "list_all (\<lambda>c. Kind c = KindText)
     [Node (Text ''a_b\<newline>'' False False False) [], Node (Text ''c\<newline>'' False False False) []]
   \<and> renderCodeSpan []
       (Node CodeSpan
          [Node (Text ''a_b\<newline>'' False False False) [], Node (Text ''c\<newline>'' False False False) []])
       True
     = Inr (WalkSkipChildren, None, CHR 0x5C # ''texttt{a'' @ CHR 0x5C # ''_b c '')"
proof -
  have k: "list_all (\<lambda>c. Kind c = KindText)
     [Node (Text ''a_b\<newline>'' False False False) [], Node (Text ''c\<newline>'' False False False) []]"
    by (simp add: Kind_def)
  show ?thesis
    using k renderCodeSpan_escaped [OF k, of "[]"]
    by (simp add: segmentValue_def escapeLaTeX_concat escapeTable_def codeSpanStart_def)
qed

section \<open>Properties of the image attributes\<close>

lemma splitFrom_unfold:
  "splitFrom s sep cur
     = (cur @ takeWhile (\<lambda>c. c \<noteq> sep) s)
       # (if sep \<in> set s then splitFrom (tl (dropWhile (\<lambda>c. c \<noteq> sep) s)) sep [] else [])"
  by (induction s arbitrary: cur) auto

lemma strings_Split_first: "strings_Split s sep ! 0 = takeWhile (\<lambda>c. c \<noteq> sep) s"
  unfolding strings_Split_def by (subst splitFrom_unfold) simp

lemma strings_Split_more: "Suc 0 < length (strings_Split s sep) \<longleftrightarrow> sep \<in> set s"
proof -
  have "splitFrom t sep [] \<noteq> []" for t
    by (subst splitFrom_unfold) simp
  then show ?thesis
    unfolding strings_Split_def by (subst splitFrom_unfold) (simp add: Suc_lessI)
qed

lemma strings_Split_second:
  "sep \<in> set s \<Longrightarrow>
   strings_Split s sep ! Suc 0
     = takeWhile (\<lambda>c. c \<noteq> sep) (tl (dropWhile (\<lambda>c. c \<noteq> sep) s))"
proof -
  assume a: "sep \<in> set s"
  have "splitFrom s sep [] ! Suc 0 = splitFrom (tl (dropWhile (\<lambda>c. c \<noteq> sep) s)) sep [] ! 0"
    using a by (subst splitFrom_unfold) simp
  then show ?thesis
    using strings_Split_first [of "tl (dropWhile (\<lambda>c. c \<noteq> sep) s)" sep]
    by (simp add: strings_Split_def)
qed

lemma imageAttributes_step:
  "imageAttributes path (token # rest) (attributes, w)
     = imageAttributes path rest
         (case spec_attributeValue ''width'' token of
            Some v \<Rightarrow> attributes(''width'' \<mapsto> v)
          | None \<Rightarrow>
              (case spec_attributeValue ''label'' token of
                 Some v \<Rightarrow> attributes(''label'' \<mapsto> v)
               | None \<Rightarrow>
                   (case spec_attributeValue ''caption'' token of
                      Some v \<Rightarrow> attributes(''caption'' \<mapsto> v)
                    | None \<Rightarrow> attributes)),
          w @ spec_attributeDiagnostic path token)"
proof -
  define t where "t = strings_Split token (CHR ''='')"
  consider (invalid) "length t \<noteq> 2"
    | (width) "length t = 2" "t ! 0 = ''width''"
    | (label) "length t = 2" "t ! 0 = ''label''"
    | (caption) "length t = 2" "t ! 0 = ''caption''"
    | (other) "length t = 2" "t ! 0 \<noteq> ''width''" "t ! 0 \<noteq> ''label''" "t ! 0 \<noteq> ''caption''"
    by blast
  then show ?thesis
  proof cases
    case invalid
    then show ?thesis
      by (simp add: spec_attributeValue_def spec_attributeDiagnostic_def Let_def t_def [symmetric])
  next
    case width
    then show ?thesis
      by (simp add: spec_attributeValue_def spec_attributeDiagnostic_def Let_def t_def [symmetric])
  next
    case label
    then show ?thesis
      by (simp add: spec_attributeValue_def spec_attributeDiagnostic_def Let_def t_def [symmetric])
  next
    case caption
    then show ?thesis
      by (simp add: spec_attributeValue_def spec_attributeDiagnostic_def Let_def t_def [symmetric])
  next
    case other
    then show ?thesis
      by (simp add: spec_attributeValue_def spec_attributeDiagnostic_def Let_def t_def [symmetric])
  qed
qed

lemma imageAttributes_stream:
  "snd (imageAttributes path tokens (attributes, w))
     = w @ concat (map (spec_attributeDiagnostic path) tokens)"
proof (induction tokens arbitrary: attributes w)
  case Nil
  show ?case by simp
next
  case (Cons token rest)
  show ?case
    by (simp only: imageAttributes_step Cons.IH) simp
qed

lemma spec_attributeValue_exclusive:
  "spec_attributeValue k token = Some v \<Longrightarrow> k' \<noteq> k \<Longrightarrow> spec_attributeValue k' token = None"
  by (auto simp: spec_attributeValue_def Let_def split: if_splits)

lemma lookupAttr_step:
  assumes "k = ''width'' \<or> k = ''label'' \<or> k = ''caption''"
  shows "lookupAttr
           (case spec_attributeValue ''width'' token of
              Some v \<Rightarrow> attributes(''width'' \<mapsto> v)
            | None \<Rightarrow>
                (case spec_attributeValue ''label'' token of
                   Some v \<Rightarrow> attributes(''label'' \<mapsto> v)
                 | None \<Rightarrow>
                     (case spec_attributeValue ''caption'' token of
                        Some v \<Rightarrow> attributes(''caption'' \<mapsto> v)
                      | None \<Rightarrow> attributes))) k
         = (case spec_attributeValue k token of Some v \<Rightarrow> v | None \<Rightarrow> lookupAttr attributes k)"
proof (cases "spec_attributeValue ''width'' token")
  case (Some v)
  then have "spec_attributeValue ''label'' token = None" "spec_attributeValue ''caption'' token = None"
    using spec_attributeValue_exclusive [of "''width''" token v] by simp_all
  with Some assms show ?thesis
    by (auto simp: lookupAttr_def)
next
  case w: None
  show ?thesis
  proof (cases "spec_attributeValue ''label'' token")
    case (Some v)
    then have "spec_attributeValue ''caption'' token = None"
      using spec_attributeValue_exclusive [of "''label''" token v] by simp
    with Some w assms show ?thesis
      by (auto simp: lookupAttr_def)
  next
    case l: None
    show ?thesis
      using w l assms by (cases "spec_attributeValue ''caption'' token") (auto simp: lookupAttr_def)
  qed
qed

lemma lookupAttr_empty: "lookupAttr Map.empty k = []"
  by (simp add: lookupAttr_def)

lemma imageAttributes_lookup:
  assumes "k = ''width'' \<or> k = ''label'' \<or> k = ''caption''"
  shows "lookupAttr (fst (imageAttributes path tokens (attributes, w))) k
     = (case List.map_filter (spec_attributeValue k) tokens of
          [] \<Rightarrow> lookupAttr attributes k
        | v # vs \<Rightarrow> last (v # vs))"
proof (induction tokens arbitrary: attributes w)
  case Nil
  show ?case by (simp add: List.map_filter_simps)
next
  case (Cons token rest)
  show ?case
  proof (cases "spec_attributeValue k token")
    case None
    then show ?thesis
      by (simp only: imageAttributes_step Cons.IH lookupAttr_step [OF assms])
        (simp add: List.map_filter_simps split: list.splits)
  next
    case (Some v)
    then show ?thesis
      by (simp only: imageAttributes_step Cons.IH lookupAttr_step [OF assms])
        (simp add: List.map_filter_simps split: list.splits)
  qed
qed

text \<open>
  Claim C8 says that the destination is split on the first \<^verbatim>\<open>?\<close> into the path and
  the query string. For the destination \<^verbatim>\<open>p.png?width=1?2\<close> the text after the first
  \<^verbatim>\<open>?\<close> is \<^verbatim>\<open>width=1?2\<close>, but the handler takes the width \<^verbatim>\<open>1\<close>: the
  destination is split at every \<^verbatim>\<open>?\<close> and only the second piece is the query string.
\<close>

theorem renderImage_second_question_mark_counterexample:
  "renderImage [] (Node (Image ''p.png?width=1?2'' []) []) True
     = Inr (WalkSkipChildren, None,
         ''\<newline>% goldmark-latex: destination: p.png?width=1?2, title:  \<newline>''
         @ figureBlock ''1'' ''p.png'' [] [])
   \<and> ''p.png?width=1?2'' = ''p.png'' @ ''?'' @ ''width=1?2''
   \<and> figureBlock ''1'' ''p.png'' [] [] \<noteq> figureBlock ''1?2'' ''p.png'' [] []"
  by (simp add: renderImage_def Let_def strings_Split_def lookupAttr_def figureBlock_def)

text \<open>
  Claim C8 as amended. The path is the text of the destination before its first
  \<^verbatim>\<open>?\<close>; the query string is the text between the first \<^verbatim>\<open>?\<close> and the second one
  (or the end), and what follows a second \<^verbatim>\<open>?\<close> is ignored. The query string is split
  at \<^verbatim>\<open>&\<close> into tokens. The handler writes the destination comment, then for each token
  in order its diagnostic comment (one comment for a token that does not split at
  \<^verbatim>\<open>=\<close> into exactly two parts, one comment for a key other than width, label and
  caption, nothing otherwise), then the figure block filled with the path and with the
  values of width, caption and label, each the value of the last token that sets it
  (\<^verbatim>\<open>%20\<close> replaced by a space in a caption) and empty when no token sets it. The
  handler returns SkipChildren.
\<close>

theorem renderImage_attributes:
  "renderImage w (Node (Image destination title) cs) True
     = (let path = takeWhile (\<lambda>c. c \<noteq> CHR ''?'') destination;
            query = takeWhile (\<lambda>c. c \<noteq> CHR ''?'')
                      (tl (dropWhile (\<lambda>c. c \<noteq> CHR ''?'') destination));
            tokens = (if CHR ''?'' \<in> set destination then strings_Split query (CHR ''&'') else [])
        in Inr (WalkSkipChildren, None,
             w @ ''\<newline>% goldmark-latex: destination: '' @ destination @ '', title: '' @ title
               @ '' \<newline>''
               @ concat (map (spec_attributeDiagnostic path) tokens)
               @ figureBlock (spec_lastAttribute ''width'' tokens) path
                   (spec_lastAttribute ''caption'' tokens) (spec_lastAttribute ''label'' tokens)))"
proof (cases "CHR ''?'' \<in> set destination")
  case False
  then have "\<not> 1 < length (strings_Split destination (CHR ''?''))"
    using strings_Split_more [of destination "CHR ''?''"] by simp
  then show ?thesis
    using False
    by (simp add: renderImage_def Let_def strings_Split_first spec_lastAttribute_def lookupAttr_def
        List.map_filter_simps)
next
  case True
  then have more: "1 < length (strings_Split destination (CHR ''?''))"
    using strings_Split_more [of destination "CHR ''?''"] by simp
  obtain attributes w2 where loop:
    "imageAttributes (takeWhile (\<lambda>c. c \<noteq> CHR ''?'') destination)
       (strings_Split (takeWhile (\<lambda>c. c \<noteq> CHR ''?'')
                         (tl (dropWhile (\<lambda>c. c \<noteq> CHR ''?'') destination))) (CHR ''&''))
       (Map.empty,
        w @ ''\<newline>% goldmark-latex: destination: '' @ destination @ '', title: '' @ title
          @ '' \<newline>'')
     = (attributes, w2)"
    by (cases "imageAttributes (takeWhile (\<lambda>c. c \<noteq> CHR ''?'') destination)
       (strings_Split (takeWhile (\<lambda>c. c \<noteq> CHR ''?'')
                         (tl (dropWhile (\<lambda>c. c \<noteq> CHR ''?'') destination))) (CHR ''&''))
       (Map.empty,
        w @ ''\<newline>% goldmark-latex: destination: '' @ destination @ '', title: '' @ title
          @ '' \<newline>'')") auto
  have st: "w2 = (w @ ''\<newline>% goldmark-latex: destination: '' @ destination @ '', title: '' @ title
          @ '' \<newline>'')
       @ concat (map (spec_attributeDiagnostic (takeWhile (\<lambda>c. c \<noteq> CHR ''?'') destination))
           (strings_Split (takeWhile (\<lambda>c. c \<noteq> CHR ''?'')
                         (tl (dropWhile (\<lambda>c. c \<noteq> CHR ''?'') destination))) (CHR ''&'')))"
    using imageAttributes_stream
      [of "takeWhile (\<lambda>c. c \<noteq> CHR ''?'') destination"
        "strings_Split (takeWhile (\<lambda>c. c \<noteq> CHR ''?'')
                         (tl (dropWhile (\<lambda>c. c \<noteq> CHR ''?'') destination))) (CHR ''&'')"
        Map.empty
        "w @ ''\<newline>% goldmark-latex: destination: '' @ destination @ '', title: '' @ title
          @ '' \<newline>''"] loop
    by simp
  have lk: "lookupAttr attributes k
      = spec_lastAttribute k (strings_Split (takeWhile (\<lambda>c. c \<noteq> CHR ''?'')
                         (tl (dropWhile (\<lambda>c. c \<noteq> CHR ''?'') destination))) (CHR ''&''))"
    if "k = ''width'' \<or> k = ''label'' \<or> k = ''caption''" for k
    using imageAttributes_lookup [OF that,
        of "takeWhile (\<lambda>c. c \<noteq> CHR ''?'') destination"
        "strings_Split (takeWhile (\<lambda>c. c \<noteq> CHR ''?'')
                         (tl (dropWhile (\<lambda>c. c \<noteq> CHR ''?'') destination))) (CHR ''&'')"
        Map.empty
        "w @ ''\<newline>% goldmark-latex: destination: '' @ destination @ '', title: '' @ title
          @ '' \<newline>''"] loop
    by (simp add: spec_lastAttribute_def lookupAttr_empty split: list.splits)
  show ?thesis
    using True more loop
    by (simp add: renderImage_def Let_def strings_Split_first strings_Split_second st lk)
qed

theorem renderImage_attributes_witness:
  "renderImage [] (Node (Image ''pic.png?width=0.5&caption=A%20B&bogus=1'' ''T'') []) True
     = Inr (WalkSkipChildren, None,
         ''\<newline>% goldmark-latex: destination: pic.png?width=0.5&caption=A%20B&bogus=1, title: T \<newline>''
         @ ''\<newline>% goldmark-latex: image pic.png has unsupported attribute bogus\<newline>''
         @ figureBlock ''0.5'' ''pic.png'' ''A B'' [])"
  using renderImage_attributes [of "[]" "''pic.png?width=0.5&caption=A%20B&bogus=1''" "''T''" "[]"]
  by (simp add: Let_def strings_Split_def spec_attributeDiagnostic_def spec_lastAttribute_def
      spec_attributeValue_def List.map_filter_simps strings_ReplaceAll.simps)

section \<open>Properties of the mailto detection\<close>

lemma DecodeRune_ascii: "(of_char c :: nat) < 0x80 \<Longrightarrow> DecodeRune (c # rest) = (of_char c, 1)"
  by simp

lemma spec_asciiUpper_ascii:
  "(of_char c :: nat) < 0x80 \<Longrightarrow> (of_char (spec_asciiUpper c) :: nat) < 0x80"
  by (auto simp: spec_asciiUpper_def intro: less_imp_diff_less)

lemma ToLower_spec_asciiUpper:
  "(of_char c :: nat) < 0x80 \<Longrightarrow>
   ToLower ct (of_char (spec_asciiUpper c)) = ToLower ct (of_char c)"
  by (auto simp: spec_asciiUpper_def ToLower_def)

lemma haslowerprefixFrom_upper:
  assumes "list_all (\<lambda>c. (of_char c :: nat) < 0x80) a"
  shows "haslowerprefixFrom ct (map spec_asciiUpper a) b i = haslowerprefixFrom ct a b i"
  using assms
proof (induction ct a b i rule: haslowerprefixFrom.induct)
  case (1 ct a b i)
  show ?case
  proof (cases "int i < minInt (int (length a)) (int (length b))")
    case False
    then show ?thesis
      by (subst (1 2) haslowerprefixFrom.simps) simp
  next
    case True
    then have ia: "i < length a"
      by (simp add: minInt_def split: if_splits)
    then have da: "drop i a = a ! i # drop (Suc i) a"
      by (simp add: Cons_nth_drop_Suc)
    have asc: "(of_char (a ! i) :: nat) < 0x80"
      using "1.prems" ia by (simp add: list_all_length)
    have ra: "DecodeRune (drop i a) = (of_char (a ! i), 1)"
      using asc by (simp only: da DecodeRune_ascii)
    have ru: "DecodeRune (drop i (map spec_asciiUpper a)) = (of_char (spec_asciiUpper (a ! i)), 1)"
      using spec_asciiUpper_ascii [OF asc]
      by (simp only: drop_map da list.map DecodeRune_ascii)
    obtain rb lb where rb: "DecodeRune (drop i b) = (rb, lb)"
      by (cases "DecodeRune (drop i b)") auto
    show ?thesis
    proof (cases "1 \<noteq> lb \<or> ToLower ct (of_char (a ! i)) \<noteq> ToLower ct rb")
      case stop: True
      then show ?thesis
        using True ra ru rb ToLower_spec_asciiUpper [OF asc, of ct]
        by (subst (1 2) haslowerprefixFrom.simps) auto
    next
      case go: False
      have ih: "haslowerprefixFrom ct (map spec_asciiUpper a) b (i + 1)
                  = haslowerprefixFrom ct a b (i + 1)"
        using "1.IH" [OF True ra [symmetric] rb [symmetric] go "1.prems"] by simp
      show ?thesis
        using True ra ru rb go ih ToLower_spec_asciiUpper [OF asc, of ct]
        by (subst (1 2) haslowerprefixFrom.simps) simp
    qed
  qed
qed

text \<open>
  The comparison loop itself does not depend on the case of ASCII letters: an ASCII
  target and that target with its letters in upper case get the same verdict against
  any marker.
\<close>

lemma haslowerprefix_upper:
  "list_all (\<lambda>c. (of_char c :: nat) < 0x80) a \<Longrightarrow>
   haslowerprefix ct (map spec_asciiUpper a) b = haslowerprefix ct a b"
  by (simp add: haslowerprefix_def haslowerprefixFrom_upper)

text \<open>
  Claim C9 says that the email autolink handler detects a target that starts, in any
  letter case, with the \<^verbatim>\<open>mailto:\<close> marker, so that \<^verbatim>\<open>MAILTO:x@y\<close> and
  \<^verbatim>\<open>mailto:x@y\<close> are treated as carrying the scheme and \<^verbatim>\<open>mailto2:x\<close> is not. The
  constant \<^verbatim>\<open>mailToPrefix\<close> of the source is the reversed text \<^verbatim>\<open>:mailto\<close>. With it
  the detection matches neither \<^verbatim>\<open>mailto:x@y\<close> nor \<^verbatim>\<open>MAILTO:x@y\<close> nor the plain
  address \<^verbatim>\<open>x@y\<close>, which is written without any scheme; it does match
  \<^verbatim>\<open>:MAILTO2:x\<close>, and it matches the empty target, which is shorter than the marker,
  against the comment of \<^verbatim>\<open>haslowerprefix\<close> that names
  \<^verbatim>\<open>bytes.HasPrefix(bytes.ToLower(a), bytes.ToLower(b))\<close>. The outputs for
  \<^verbatim>\<open>MAILTO:x@y\<close> and \<^verbatim>\<open>mailto:x@y\<close> keep the case of the target.
\<close>

theorem renderAutoLink_reversed_marker:
  "mailToPrefix = '':mailto''
   \<and> \<not> haslowerprefix ct ''mailto:x@y'' mailToPrefix
   \<and> \<not> haslowerprefix ct ''MAILTO:x@y'' mailToPrefix
   \<and> \<not> haslowerprefix ct ''x@y'' mailToPrefix
   \<and> haslowerprefix ct '':MAILTO2:x'' mailToPrefix
   \<and> haslowerprefix ct [] mailToPrefix
   \<and> renderAutoLink ct w (Node (AutoLink AutoLinkEmail ''x@y'' ''x@y'') cs) True
       = Inr (WalkContinue, None, w @ CHR 0x5C # ''href{x@y}{x@y}'')
   \<and> renderAutoLink ct w (Node (AutoLink AutoLinkEmail ''mailto:x@y'' ''x@y'') cs) True
       = Inr (WalkContinue, None, w @ CHR 0x5C # ''href{mailto:x@y}{x@y}'')
   \<and> renderAutoLink ct w (Node (AutoLink AutoLinkEmail ''MAILTO:x@y'' ''x@y'') cs) True
       = Inr (WalkContinue, None, w @ CHR 0x5C # ''href{MAILTO:x@y}{x@y}'')
   \<and> renderAutoLink ct w (Node (AutoLink AutoLinkEmail '':MAILTO2:x'' ''x'') cs) True
       = Inr (WalkContinue, None, w @ CHR 0x5C # ''href{mailto::MAILTO2:x}{x}'')
   \<and> renderAutoLink ct w (Node (AutoLink AutoLinkEmail [] ''x'') cs) True
       = Inr (WalkContinue, None, w @ CHR 0x5C # ''href{mailto:}{x}'')"
  by (simp add: renderAutoLink_def escLink_def Let_def escapeLaTeX_concat escapeTable_def
      haslowerprefix_def haslowerprefixFrom.simps mailToPrefix_def minInt_def ToLower_def)

end
